theory Spec2Isabelle
  imports Main
begin

section \<open>Data model of \<^verbatim>\<open>modules/RTC/JitsiLocalTrack.js\<close>\<close>

datatype MediaType = AUDIO | VIDEO

datatype VideoType = CAMERA | DESKTOP

datatype CameraFacingMode = USER | ENVIRONMENT

datatype ReadyState = LIVE | ENDED

datatype RTCEvents = DEVICE_LIST_CHANGED | AUDIO_OUTPUT_DEVICE_CHANGED

datatype JitsiTrackErrors = TRACK_MUTE_UNMUTE_IN_PROGRESS | TRACK_NO_STREAM_FOUND

text \<open>
  What a promise can be rejected with, or a call can throw: a \<^verbatim>\<open>JitsiTrackError\<close>, a
  fault handed in by a collaborator through a \<^verbatim>\<open>reject\<close> callback (identified by a
  number), or the \<^verbatim>\<open>TypeError\<close> of reading a property of \<^verbatim>\<open>null\<close>.
\<close>

datatype fault = JitsiTrackError JitsiTrackErrors | Collaborator nat | TypeError

text \<open>
  The native WebRTC objects. \<open>readyState = None\<close> is a browser whose tracks have no
  \<^verbatim>\<open>readyState\<close> property (\<^verbatim>\<open>typeof ... === 'undefined'\<close>); \<open>settingsFacingMode\<close> is
  the \<^verbatim>\<open>facingMode\<close> entry of \<^verbatim>\<open>getSettings()\<close>, \<open>None\<close> when the call throws, returns
  nothing or has no such entry.
\<close>

record MediaStreamTrack =
  kind :: string
  label :: string
  enabled :: bool
  readyState :: "ReadyState option"
  settingsFacingMode :: "CameraFacingMode option"

text \<open>
  \<open>active\<close> is what \<^verbatim>\<open>JitsiTrack.prototype.isActive\<close> reports for the stream; the base
  class is outside the file, so its answer is a field the environment supplies.
\<close>

record MediaStream =
  streamId :: nat
  active :: bool

record MediaDeviceInfo =
  dev_deviceId :: string
  dev_kind :: string
  dev_label :: string

text \<open>An entry of the array \<^verbatim>\<open>RTCUtils.obtainAudioAndVideoPermissions\<close> resolves with.\<close>

record streamInfo =
  info_stream :: MediaStream
  info_track :: MediaStreamTrack
  info_mediaType :: MediaType
  info_videoType :: "VideoType option"

text \<open>\<open>room\<close> tells whether \<^verbatim>\<open>conference.room\<close> is set.\<close>

record JitsiConference =
  room :: bool

record streamOptions =
  cameraDeviceId :: string
  devices :: "MediaType list"
  opt_facingMode :: "CameraFacingMode option"
  opt_resolution :: "string option"

text \<open>
  The fields of a \<^verbatim>\<open>JitsiLocalTrack\<close> object. \<open>mediaType\<close> is \<^verbatim>\<open>this.type\<close>,
  \<open>trackEnded\<close> is \<^verbatim>\<open>this._trackEnded\<close>, \<open>realDeviceId\<close> is \<^verbatim>\<open>this._realDeviceId\<close>
  (\<open>None\<close> for \<^verbatim>\<open>undefined\<close>), \<open>facingMode\<close> is \<^verbatim>\<open>this._facingMode\<close>, and
  \<open>onAudioOutputDeviceChanged\<close> tells whether \<^verbatim>\<open>this._onAudioOutputDeviceChanged\<close> was
  installed by the constructor. Display containers are identified by numbers.
\<close>

record JitsiLocalTrack =
  stream :: "MediaStream option"
  track :: "MediaStreamTrack option"
  mediaType :: MediaType
  videoType :: "VideoType option"
  conference :: "JitsiConference option"
  containers :: "nat list"
  dontFireRemoveEvent :: bool
  resolution :: "string option"
  deviceId :: string
  startMuted :: bool
  inMuteOrUnmuteProgress :: bool
  facingMode :: "CameraFacingMode option"
  trackEnded :: bool
  realDeviceId :: "string option"
  onAudioOutputDeviceChanged :: bool

section \<open>Synchronous accessors\<close>

text \<open>
  Modelled from the spec: \<^verbatim>\<open>isAudioTrack\<close>, \<^verbatim>\<open>isVideoTrack\<close> and \<^verbatim>\<open>isActive\<close> belong to
  the base class \<^verbatim>\<open>JitsiTrack\<close>, which is not among the sources. The media kind is one of
  AUDIO and VIDEO, and the derived mute state depends on the stream through one boolean.
\<close>

definition isAudioTrack :: "'a JitsiLocalTrack_scheme \<Rightarrow> bool" where
  "isAudioTrack t = (mediaType t = AUDIO)"

definition isVideoTrack :: "'a JitsiLocalTrack_scheme \<Rightarrow> bool" where
  "isVideoTrack t = (mediaType t = VIDEO)"

definition isActive :: "MediaStream \<Rightarrow> bool" where
  "isActive s = active s"

text \<open>\<^verbatim>\<open>JitsiLocalTrack.prototype.isMuted\<close>, lines 378-387.\<close>

definition isMuted :: "'a JitsiLocalTrack_scheme \<Rightarrow> bool" where
  "isMuted t =
     (case stream t of
        None \<Rightarrow> True
      | Some s \<Rightarrow>
          if isVideoTrack t \<and> \<not> isActive s then True
          else (case track t of None \<Rightarrow> True | Some tr \<Rightarrow> \<not> enabled tr))"

text \<open>
  \<^verbatim>\<open>JitsiLocalTrack.prototype.isEnded\<close>, lines 101-103. \<^verbatim>\<open>this.getTrack()\<close> is read
  before the disjunction, so a track object without a native track throws.
\<close>

definition isEnded :: "'a JitsiLocalTrack_scheme \<Rightarrow> fault + bool" where
  "isEnded t =
     (case track t of
        None \<Rightarrow> Inl TypeError
      | Some tr \<Rightarrow> Inr (readyState tr = Some ENDED \<or> trackEnded t))"

text \<open>The callback of \<^verbatim>\<open>devices.find\<close> at lines 114-116.\<close>

definition deviceMatches :: "MediaStreamTrack \<Rightarrow> MediaDeviceInfo \<Rightarrow> bool" where
  "deviceMatches tr d = (dev_kind d = kind tr @ ''input'' \<and> dev_label d = label tr)"

text \<open>
  \<^verbatim>\<open>_setRealDeviceIdFromDeviceList\<close>, lines 112-121. The callback reads \<^verbatim>\<open>track.kind\<close>,
  so without a native track it throws as soon as the list has an entry to test.
\<close>

definition setRealDeviceIdFromDeviceList ::
  "MediaDeviceInfo list \<Rightarrow> 'a JitsiLocalTrack_scheme \<Rightarrow> fault + 'a JitsiLocalTrack_scheme"
where
  "setRealDeviceIdFromDeviceList devs t =
     (case track t of
        None \<Rightarrow> (if devs = [] then Inr t else Inl TypeError)
      | Some tr \<Rightarrow>
          (case find (deviceMatches tr) devs of
             None \<Rightarrow> Inr t
           | Some device \<Rightarrow> Inr (t\<lparr>realDeviceId := Some (dev_deviceId device)\<rparr>)))"

text \<open>\<^verbatim>\<open>this._onDeviceListChanged\<close>, lines 64-77.\<close>

definition onDeviceListChanged ::
  "MediaDeviceInfo list \<Rightarrow> 'a JitsiLocalTrack_scheme \<Rightarrow> fault + 'a JitsiLocalTrack_scheme"
where
  "onDeviceListChanged devs t =
     (case setRealDeviceIdFromDeviceList devs t of
        Inl e \<Rightarrow> Inl e
      | Inr t' \<Rightarrow>
          (case track t' of
             None \<Rightarrow> Inl TypeError
           | Some tr \<Rightarrow>
               if readyState tr = None
                  \<and> realDeviceId t' \<noteq> None
                  \<and> find (\<lambda>d. Some (dev_deviceId d) = realDeviceId t') devs = None
               then Inr (t'\<lparr>trackEnded := True\<rparr>)
               else Inr t'))"

text \<open>\<^verbatim>\<open>getDeviceId\<close>, lines 444-446: \<^verbatim>\<open>||\<close> also skips an empty string.\<close>

definition getDeviceId :: "'a JitsiLocalTrack_scheme \<Rightarrow> string" where
  "getDeviceId t =
     (case realDeviceId t of
        None \<Rightarrow> deviceId t
      | Some d \<Rightarrow> if d = [] then deviceId t else d)"

text \<open>\<^verbatim>\<open>getCameraFacingMode\<close>, lines 454-487.\<close>

definition getCameraFacingMode :: "'a JitsiLocalTrack_scheme \<Rightarrow> CameraFacingMode option" where
  "getCameraFacingMode t =
     (if isVideoTrack t \<and> videoType t = Some CAMERA then
        (case Option.bind (track t) settingsFacingMode of
           Some f \<Rightarrow> Some f
         | None \<Rightarrow> (case facingMode t of Some f \<Rightarrow> Some f | None \<Rightarrow> Some USER))
      else None)"

section \<open>The asynchronous part: promises as explicit continuations\<close>

text \<open>
  Calls to collaborators and emitted events are recorded, in order, in a log.
  \<open>Fulfilled\<close> and \<open>RejectedWith\<close> record the settlement of the promise that
  \<^verbatim>\<open>mute()\<close> or \<^verbatim>\<open>unmute()\<close> returned for an accepted request, \<open>DisposeRejectedWith\<close>
  that of the promise of \<^verbatim>\<open>dispose()\<close>.
\<close>

datatype event =
    TRACK_MUTE_CHANGED
  | AddListener RTCEvents
  | RemoveListener RTCEvents
  | RoomRemoveStream "MediaStream option" string
  | RoomAddStream "MediaStream option" string
  | RoomSetAudioMute bool
  | RoomSetVideoMute bool
  | StopMediaStream "MediaStream option"
  | ObtainAudioAndVideoPermissions streamOptions
  | AttachMediaStream nat "MediaStream option"
  | ConferenceRemoveTrack
  | Detach
  | SuperDispose
  | Fulfilled
  | RejectedWith fault
  | DisposeRejectedWith fault

text \<open>The state of a promise at the moment a function returns it.\<close>

datatype promise = Resolved | Pending | Rejected fault

text \<open>
  A promise chain that has not settled yet waits at one of its links: either for a
  collaborator to invoke a callback (\<open>Await...\<close>), or for the microtask that runs the
  next \<^verbatim>\<open>then\<close>/\<^verbatim>\<open>catch\<close> callback (\<open>Then...\<close>, \<open>CatchClear\<close>). The links are those of
  \<^verbatim>\<open>_setMute\<close> (lines 204-258) followed by the two of \<^verbatim>\<open>createMuteUnmutePromise\<close>
  (lines 158-164).
\<close>

datatype phase =
    AwaitRemoveStream
  | ThenStopStream
  | AwaitObtain
  | ThenAttach "streamInfo list"
  | AwaitAddStream
  | ThenSendMuteStatus
  | AwaitSetMute
  | ThenEmit
  | ThenClear
  | CatchClear fault

datatype transition = Transition (target: bool) (phase: phase)

datatype disposal = AwaitRemoveTrack | ThenSuperDispose

text \<open>
  The track object together with what surrounds it at run time: the page's protocol
  (\<^verbatim>\<open>window.location.protocol\<close>), the browser test \<^verbatim>\<open>RTCBrowserType.isFirefox()\<close>,
  whether the device-list listener is registered, the promise chains that have not
  settled, and the log. The list \<open>inflight\<close> can hold any number of chains: that it
  never holds two is a property of the code, proved below.
\<close>

record runtime = JitsiLocalTrack +
  protocol :: string
  isFirefox :: bool
  listening :: bool
  inflight :: "transition list"
  disposals :: "disposal list"
  log :: "event list"

definition emit :: "event \<Rightarrow> runtime \<Rightarrow> runtime" where
  "emit e w = w\<lparr>log := log w @ [e]\<rparr>"

text \<open>
  The constructor, lines 26-92. The last three parameters are the platform: the page's
  protocol, the Firefox test, and \<^verbatim>\<open>RTCUtils.isDeviceChangeAvailable('output')\<close>. A new
  track has no conference and no container.
\<close>

definition JitsiLocalTrack_new ::
  "MediaStream option \<Rightarrow> MediaStreamTrack option \<Rightarrow> MediaType \<Rightarrow> VideoType option \<Rightarrow>
   string option \<Rightarrow> string \<Rightarrow> CameraFacingMode option \<Rightarrow> string \<Rightarrow> bool \<Rightarrow> bool \<Rightarrow> runtime"
where
  "JitsiLocalTrack_new strm trk mtype vtype res devId facing proto firefox outputChange =
     \<lparr> stream = strm, track = trk, mediaType = mtype, videoType = vtype,
       conference = None, containers = [], dontFireRemoveEvent = False,
       resolution = res, deviceId = devId, startMuted = False,
       inMuteOrUnmuteProgress = False, facingMode = facing, trackEnded = False,
       realDeviceId = (if devId = [] then None else Some devId),
       onAudioOutputDeviceChanged = (mtype = AUDIO \<and> outputChange),
       protocol = proto, isFirefox = firefox, listening = True,
       inflight = [], disposals = [],
       log = (if mtype = AUDIO \<and> outputChange
              then [AddListener AUDIO_OUTPUT_DEVICE_CHANGED] else [])
             @ [AddListener DEVICE_LIST_CHANGED] \<rparr>"

text \<open>The test \<^verbatim>\<open>!this.conference || !this.conference.room\<close>, negated.\<close>

definition inRoom :: "'a JitsiLocalTrack_scheme \<Rightarrow> bool" where
  "inRoom t = (case conference t of None \<Rightarrow> False | Some c \<Rightarrow> room c)"

text \<open>\<^verbatim>\<open>_removeStreamFromConferenceAsMute\<close>, lines 294-312.\<close>

definition removeStreamFromConferenceAsMute :: "runtime \<Rightarrow> promise \<times> runtime" where
  "removeStreamFromConferenceAsMute w =
     (if \<not> inRoom w then (Resolved, w)
      else (Pending, emit (RoomRemoveStream (stream w) ''mute'') w))"

text \<open>\<^verbatim>\<open>_addStreamToConferenceAsUnmute\<close>, lines 267-286.\<close>

definition addStreamToConferenceAsUnmute :: "runtime \<Rightarrow> promise \<times> runtime" where
  "addStreamToConferenceAsUnmute w =
     (if \<not> inRoom w then (Resolved, w)
      else (Pending, emit (RoomAddStream (stream w) ''unmute'') w))"

text \<open>\<^verbatim>\<open>_sendMuteStatus\<close>, lines 321-334.\<close>

definition sendMuteStatus :: "bool \<Rightarrow> runtime \<Rightarrow> promise \<times> runtime" where
  "sendMuteStatus mute w =
     (if \<not> inRoom w then (Resolved, w)
      else (Pending,
            emit (if isAudioTrack w then RoomSetAudioMute mute else RoomSetVideoMute mute) w))"

text \<open>The test at lines 193-196 that selects local disablement.\<close>

definition localDisablement :: "runtime \<Rightarrow> bool" where
  "localDisablement w =
     (protocol w \<noteq> ''https:'' \<or> isAudioTrack w \<or> videoType w = Some DESKTOP \<or> isFirefox w)"

text \<open>
  The synchronous part of \<^verbatim>\<open>_setMute\<close>, lines 175-250: it returns the link at which
  the promise it hands back is waiting. When the track is already in the requested state
  that promise is \<^verbatim>\<open>Promise.resolve()\<close>, and the next link is the \<^verbatim>\<open>then\<close> of
  \<^verbatim>\<open>createMuteUnmutePromise\<close>.
\<close>

definition setMute :: "bool \<Rightarrow> runtime \<Rightarrow> phase \<times> runtime" where
  "setMute mute w =
     (if isMuted w = mute then (ThenClear, w)
      else
        let w1 = (if \<not> inRoom w then w\<lparr>startMuted := mute\<rparr> else w);
            w2 = w1\<lparr>dontFireRemoveEvent := False\<rparr>
        in if localDisablement w2 then
             (ThenSendMuteStatus,
              w2\<lparr>track := map_option (\<lambda>tr. tr\<lparr>enabled := \<not> mute\<rparr>) (track w2)\<rparr>)
           else if mute then
             (case removeStreamFromConferenceAsMute (w2\<lparr>dontFireRemoveEvent := True\<rparr>) of
                (Resolved, w3) \<Rightarrow> (ThenStopStream, w3)
              | (_, w3) \<Rightarrow> (AwaitRemoveStream, w3))
           else
             (AwaitObtain,
              emit (ObtainAudioAndVideoPermissions
                      \<lparr> cameraDeviceId = getDeviceId w2, devices = [VIDEO],
                        opt_facingMode = getCameraFacingMode w2,
                        opt_resolution = resolution w2 \<rparr>) w2))"

text \<open>The callback at lines 205-210.\<close>

definition stopStreamThen :: "runtime \<Rightarrow> runtime" where
  "stopStreamThen w = (emit (StopMediaStream (stream w)) w)\<lparr>stream := None\<rparr>"

text \<open>
  The callback at lines 221-248. It throws before it has assigned anything. The reference
  \<^verbatim>\<open>RTCUtils.attachMediaStream\<close> returns stands for the same display container.
\<close>

definition attachThen :: "streamInfo list \<Rightarrow> runtime \<Rightarrow> fault + promise \<times> runtime" where
  "attachThen streamsInfo w =
     (case find (\<lambda>info. info_mediaType info = mediaType w) streamsInfo of
        None \<Rightarrow> Inl (JitsiTrackError TRACK_NO_STREAM_FOUND)
      | Some info \<Rightarrow>
          let w1 = w\<lparr>stream := Some (info_stream info), track := Some (info_track info)\<rparr>;
              w2 = (if videoType w1 \<noteq> info_videoType info
                    then w1\<lparr>videoType := info_videoType info\<rparr> else w1);
              w3 = w2\<lparr>log := log w2 @ map (\<lambda>c. AttachMediaStream c (stream w2)) (containers w2)\<rparr>
          in Inr (addStreamToConferenceAsUnmute w3))"

text \<open>The callback at lines 256-258.\<close>

definition emitThen :: "runtime \<Rightarrow> runtime" where
  "emitThen w = emit TRACK_MUTE_CHANGED w"

text \<open>The callbacks at lines 158-160 and 161-164; the second rethrows what it caught.\<close>

definition clearThen :: "runtime \<Rightarrow> runtime" where
  "clearThen w = emit Fulfilled (w\<lparr>inMuteOrUnmuteProgress := False\<rparr>)"

definition clearCatch :: "fault \<Rightarrow> runtime \<Rightarrow> runtime" where
  "clearCatch status w = emit (RejectedWith status) (w\<lparr>inMuteOrUnmuteProgress := False\<rparr>)"

text \<open>
  What can make a waiting chain go on: the microtask of its next callback, or a
  collaborator invoking \<^verbatim>\<open>resolve\<close>, \<^verbatim>\<open>reject\<close>, or the resolution of
  \<^verbatim>\<open>obtainAudioAndVideoPermissions\<close> with its array. A signal the link is not waiting
  for changes nothing. A rejection skips the remaining \<^verbatim>\<open>then\<close> callbacks and reaches
  the \<^verbatim>\<open>catch\<close> with the same fault.
\<close>

datatype completion = Microtask | Resolve | Reject fault | Streams "streamInfo list"

fun resume :: "completion \<Rightarrow> bool \<Rightarrow> phase \<Rightarrow> runtime \<Rightarrow> phase option \<times> runtime" where
  "resume Resolve mute AwaitRemoveStream w = (Some ThenStopStream, w)"
| "resume (Reject e) mute AwaitRemoveStream w = (Some (CatchClear e), w)"
| "resume Microtask mute ThenStopStream w = (Some ThenSendMuteStatus, stopStreamThen w)"
| "resume (Streams streamsInfo) mute AwaitObtain w = (Some (ThenAttach streamsInfo), w)"
| "resume (Reject e) mute AwaitObtain w = (Some (CatchClear e), w)"
| "resume Microtask mute (ThenAttach streamsInfo) w =
     (case attachThen streamsInfo w of
        Inl e \<Rightarrow> (Some (CatchClear e), w)
      | Inr (Resolved, w') \<Rightarrow> (Some ThenSendMuteStatus, w')
      | Inr (_, w') \<Rightarrow> (Some AwaitAddStream, w'))"
| "resume Resolve mute AwaitAddStream w = (Some ThenSendMuteStatus, w)"
| "resume (Reject e) mute AwaitAddStream w = (Some (CatchClear e), w)"
| "resume Microtask mute ThenSendMuteStatus w =
     (case sendMuteStatus mute w of
        (Resolved, w') \<Rightarrow> (Some ThenEmit, w')
      | (_, w') \<Rightarrow> (Some AwaitSetMute, w'))"
| "resume Resolve mute AwaitSetMute w = (Some ThenEmit, w)"
| "resume Microtask mute ThenEmit w = (Some ThenClear, emitThen w)"
| "resume Microtask mute ThenClear w = (None, clearThen w)"
| "resume Microtask mute (CatchClear e) w = (None, clearCatch e w)"
| "resume _ mute ph w = (Some ph, w)"

text \<open>\<^verbatim>\<open>createMuteUnmutePromise\<close>, lines 148-165, up to the return of the promise.\<close>

definition createMuteUnmutePromise :: "bool \<Rightarrow> runtime \<Rightarrow> promise \<times> runtime" where
  "createMuteUnmutePromise mute w =
     (if inMuteOrUnmuteProgress w
      then (Rejected (JitsiTrackError TRACK_MUTE_UNMUTE_IN_PROGRESS), w)
      else
        (case setMute mute (w\<lparr>inMuteOrUnmuteProgress := True\<rparr>) of
           (ph, w') \<Rightarrow> (Pending, w'\<lparr>inflight := inflight w' @ [Transition mute ph]\<rparr>)))"

definition mute :: "runtime \<Rightarrow> promise \<times> runtime" where
  "mute w = createMuteUnmutePromise True w"

definition unmute :: "runtime \<Rightarrow> promise \<times> runtime" where
  "unmute w = createMuteUnmutePromise False w"

text \<open>
  Modelled from the spec: \<^verbatim>\<open>JitsiTrack.prototype.detach\<close> is not among the sources; called
  without a container it detaches the track from all display surfaces.
\<close>

definition detach :: "runtime \<Rightarrow> runtime" where
  "detach w = (emit Detach w)\<lparr>containers := []\<rparr>"

text \<open>
  \<^verbatim>\<open>dispose\<close>, lines 345-370, up to the return of the promise. The promise of
  \<^verbatim>\<open>conference.removeTrack\<close> belongs to the conference and settles when it says so.
\<close>

definition dispose :: "runtime \<Rightarrow> runtime" where
  "dispose w =
     (let (p, w1) = (case conference w of
                       None \<Rightarrow> (Resolved, w)
                     | Some c \<Rightarrow> (Pending, emit ConferenceRemoveTrack w));
          w2 = (case stream w1 of
                  None \<Rightarrow> w1
                | Some s \<Rightarrow> detach (emit (StopMediaStream (stream w1)) w1));
          w3 = (emit (RemoveListener DEVICE_LIST_CHANGED) w2)\<lparr>listening := False\<rparr>;
          w4 = (if onAudioOutputDeviceChanged w3
                then emit (RemoveListener AUDIO_OUTPUT_DEVICE_CHANGED) w3 else w3)
      in w4\<lparr>disposals := disposals w4
               @ [if p = Resolved then ThenSuperDispose else AwaitRemoveTrack]\<rparr>)"

text \<open>The callback at lines 367-369, and the settling of the promise before it.\<close>

fun resumeDispose :: "completion \<Rightarrow> disposal \<Rightarrow> runtime \<Rightarrow> disposal option \<times> runtime" where
  "resumeDispose Resolve AwaitRemoveTrack w = (Some ThenSuperDispose, w)"
| "resumeDispose (Reject e) AwaitRemoveTrack w = (None, emit (DisposeRejectedWith e) w)"
| "resumeDispose Microtask ThenSuperDispose w = (None, emit SuperDispose w)"
| "resumeDispose _ d w = (Some d, w)"

text \<open>\<^verbatim>\<open>_setConference\<close>, lines 403-414; the events of the base class are left out.\<close>

definition setConference :: "JitsiConference option \<Rightarrow> runtime \<Rightarrow> runtime" where
  "setConference c w = w\<lparr>conference := c\<rparr>"

section \<open>Everything that can happen to a track\<close>

text \<open>
  The inputs of a run: the calls of the owner, the device-list notification, the
  completion signals addressed to the chain at a position of \<open>inflight\<close> or
  \<open>disposals\<close>, the base class attaching a container, and the browser ending the native
  track or deactivating the stream. An exception thrown inside the device-list listener
  leaves the track as it was.
\<close>

datatype input =
    Mute
  | Unmute
  | Dispose
  | SetConference "JitsiConference option"
  | DeviceListChanged "MediaDeviceInfo list"
  | Complete nat completion
  | CompleteDispose nat completion
  | Attach nat
  | NativeTrackEnded
  | NativeStreamInactive

fun step :: "input \<Rightarrow> runtime \<Rightarrow> runtime" where
  "step Mute w = snd (mute w)"
| "step Unmute w = snd (unmute w)"
| "step Dispose w = dispose w"
| "step (SetConference c) w = setConference c w"
| "step (DeviceListChanged devs) w =
     (if listening w
      then (case onDeviceListChanged devs w of Inl e \<Rightarrow> w | Inr w' \<Rightarrow> w')
      else w)"
| "step (Complete i c) w =
     (if i < length (inflight w) then
        (case resume c (target (inflight w ! i)) (phase (inflight w ! i)) w of
           (None, w') \<Rightarrow> w'\<lparr>inflight := take i (inflight w') @ drop (Suc i) (inflight w')\<rparr>
         | (Some ph, w') \<Rightarrow>
             w'\<lparr>inflight := (inflight w')[i := Transition (target (inflight w ! i)) ph]\<rparr>)
      else w)"
| "step (CompleteDispose i c) w =
     (if i < length (disposals w) then
        (case resumeDispose c (disposals w ! i) w of
           (None, w') \<Rightarrow> w'\<lparr>disposals := take i (disposals w') @ drop (Suc i) (disposals w')\<rparr>
         | (Some d, w') \<Rightarrow> w'\<lparr>disposals := (disposals w')[i := d]\<rparr>)
      else w)"
| "step (Attach c) w = w\<lparr>containers := containers w @ [c]\<rparr>"
| "step NativeTrackEnded w =
     w\<lparr>track := map_option
                  (\<lambda>tr. tr\<lparr>readyState := map_option (\<lambda>_. ENDED) (readyState tr)\<rparr>) (track w)\<rparr>"
| "step NativeStreamInactive w =
     w\<lparr>stream := map_option (\<lambda>s. s\<lparr>active := False\<rparr>) (stream w)\<rparr>"

fun run :: "input list \<Rightarrow> runtime \<Rightarrow> runtime" where
  "run [] w = w"
| "run (i # ins) w = run ins (step i w)"

section \<open>Sample objects\<close>

text \<open>A camera and a microphone track as the capture layer delivers them.\<close>

definition cameraTrack :: MediaStreamTrack where
  "cameraTrack = \<lparr> kind = ''video'', label = ''Front Camera'', enabled = True,
                   readyState = Some LIVE, settingsFacingMode = None \<rparr>"

definition cameraStream :: MediaStream where
  "cameraStream = \<lparr> streamId = 1, active = True \<rparr>"

definition micTrack :: MediaStreamTrack where
  "micTrack = \<lparr> kind = ''audio'', label = ''Built-in Microphone'', enabled = True,
                readyState = Some LIVE, settingsFacingMode = None \<rparr>"

definition micStream :: MediaStream where
  "micStream = \<lparr> streamId = 2, active = True \<rparr>"

text \<open>A camera track on a secure page of a browser other than Firefox.\<close>

definition cameraRuntime :: runtime where
  "cameraRuntime =
     JitsiLocalTrack_new (Some cameraStream) (Some cameraTrack) VIDEO (Some CAMERA)
       None ''cam-1'' None ''https:'' False False"

definition micRuntime :: runtime where
  "micRuntime =
     JitsiLocalTrack_new (Some micStream) (Some micTrack) AUDIO None
       None ''mic-1'' None ''https:'' False True"

text \<open>A microphone track of a browser whose tracks have no \<^verbatim>\<open>readyState\<close>.\<close>

definition legacyMicRuntime :: runtime where
  "legacyMicRuntime =
     JitsiLocalTrack_new (Some micStream) (Some (micTrack\<lparr>readyState := None\<rparr>)) AUDIO None
       None ''mic-1'' None ''https:'' True True"

definition deviceList :: "MediaDeviceInfo list" where
  "deviceList =
     [ \<lparr> dev_deviceId = ''mic-7'', dev_kind = ''audioinput'', dev_label = ''Front Camera'' \<rparr>,
       \<lparr> dev_deviceId = ''cam-5'', dev_kind = ''videoinput'', dev_label = ''Rear Camera'' \<rparr>,
       \<lparr> dev_deviceId = ''cam-9'', dev_kind = ''videoinput'', dev_label = ''Front Camera'' \<rparr>,
       \<lparr> dev_deviceId = ''cam-3'', dev_kind = ''videoinput'', dev_label = ''Front Camera'' \<rparr> ]"

definition freshCameraInfo :: streamInfo where
  "freshCameraInfo =
     \<lparr> info_stream = \<lparr> streamId = 3, active = True \<rparr>, info_track = cameraTrack,
       info_mediaType = VIDEO, info_videoType = Some CAMERA \<rparr>"

definition micInfo :: streamInfo where
  "micInfo =
     \<lparr> info_stream = micStream, info_track = micTrack,
       info_mediaType = AUDIO, info_videoType = None \<rparr>"

text \<open>The two tracks after they joined a conference that has a room.\<close>

definition boundCamera :: runtime where
  "boundCamera = step (SetConference (Some \<lparr> room = True \<rparr>)) cameraRuntime"

definition boundMic :: runtime where
  "boundMic = step (SetConference (Some \<lparr> room = True \<rparr>)) micRuntime"

text \<open>The bound camera right after \<^verbatim>\<open>mute()\<close>: the room has not answered yet.\<close>

definition mutingCamera :: runtime where
  "mutingCamera = run [SetConference (Some \<lparr> room = True \<rparr>), Mute] cameraRuntime"

text \<open>The microphone after a completed \<^verbatim>\<open>mute()\<close>, and right after a second one.\<close>

definition mutedMic :: runtime where
  "mutedMic =
     run [Mute, Complete 0 Microtask, Complete 0 Microtask, Complete 0 Microtask] micRuntime"

definition remutingMic :: runtime where
  "remutingMic =
     run [Mute, Complete 0 Microtask, Complete 0 Microtask, Complete 0 Microtask, Mute]
       micRuntime"

text \<open>The camera, outside any conference, after a completed \<^verbatim>\<open>mute()\<close> tore its stream down.\<close>

definition tornDownCamera :: runtime where
  "tornDownCamera =
     run [Mute, Complete 0 Microtask, Complete 0 Microtask, Complete 0 Microtask,
          Complete 0 Microtask] cameraRuntime"

text \<open>The camera after its device was unplugged: track ended, stream inactive.\<close>

definition unpluggedCamera :: runtime where
  "unpluggedCamera = run [NativeTrackEnded, NativeStreamInactive] cameraRuntime"

text \<open>The legacy microphone after a device list that no longer has its device.\<close>

definition endedMic :: runtime where
  "endedMic = step (DeviceListChanged []) legacyMicRuntime"

section \<open>Notions used in the statements and proofs\<close>

text \<open>The events logged between an earlier state and a later one.\<close>

definition eventsSince :: "runtime \<Rightarrow> runtime \<Rightarrow> event list" where
  "eventsSince w w' = drop (length (log w)) (log w')"

text \<open>A schedule made of completion signals only.\<close>

definition completions :: "(nat \<times> completion) list \<Rightarrow> input list" where
  "completions cs = map (\<lambda>(i, c). Complete i c) cs"

text \<open>The guard tells exactly whether a chain is waiting, and at most one is.\<close>

definition serialised :: "runtime \<Rightarrow> bool" where
  "serialised w =
     (length (inflight w) \<le> 1 \<and> (inMuteOrUnmuteProgress w \<longleftrightarrow> inflight w \<noteq> []))"

text \<open>The links a mute by local disablement passes through, and the events it may log.\<close>

fun disablementPhase :: "phase \<Rightarrow> bool" where
  "disablementPhase ThenSendMuteStatus = True"
| "disablementPhase AwaitSetMute = True"
| "disablementPhase ThenEmit = True"
| "disablementPhase ThenClear = True"
| "disablementPhase _ = False"

definition disablementEvents :: "event set" where
  "disablementEvents =
     {RoomSetAudioMute True, RoomSetVideoMute True, TRACK_MUTE_CHANGED, Fulfilled}"

definition disabling :: "runtime \<Rightarrow> runtime \<Rightarrow> bool" where
  "disabling w w' =
     (stream w' = stream w \<and> track w' = track w
      \<and> (\<exists>suf. log w' = log w @ suf \<and> set suf \<subseteq> disablementEvents)
      \<and> (\<forall>tr\<in>set (inflight w'). target tr \<and> disablementPhase (phase tr)))"

text \<open>
  The events that matter for the order of notification: the mute status sent to the
  room, the mute-changed event, and the fulfilment of the caller's promise.
\<close>

fun notable :: "event \<Rightarrow> bool" where
  "notable TRACK_MUTE_CHANGED = True"
| "notable (RoomSetAudioMute b) = True"
| "notable (RoomSetVideoMute b) = True"
| "notable Fulfilled = True"
| "notable _ = False"

definition notified :: "bool \<Rightarrow> runtime \<Rightarrow> event list" where
  "notified m w =
     (if inRoom w then [if isAudioTrack w then RoomSetAudioMute m else RoomSetVideoMute m]
      else [])"



section \<open>Helper facts\<close>

lemmas sample_defs = cameraRuntime_def micRuntime_def legacyMicRuntime_def
  JitsiLocalTrack_new_def cameraTrack_def cameraStream_def micTrack_def micStream_def
  freshCameraInfo_def micInfo_def deviceList_def

lemmas op_defs = mute_def unmute_def createMuteUnmutePromise_def setMute_def isMuted_def
  isVideoTrack_def isAudioTrack_def isActive_def inRoom_def localDisablement_def
  removeStreamFromConferenceAsMute_def addStreamToConferenceAsUnmute_def sendMuteStatus_def
  stopStreamThen_def attachThen_def emitThen_def clearThen_def clearCatch_def emit_def
  getDeviceId_def getCameraFacingMode_def setConference_def dispose_def detach_def

lemma find_first_match:
  "(\<forall>x\<in>set pre. \<not> P x) \<Longrightarrow> P d \<Longrightarrow> find P (pre @ d # post) = Some d"
  by (induction pre) simp_all

lemma find_no_match: "(\<forall>x\<in>set xs. \<not> P x) \<Longrightarrow> find P xs = None"
  by (induction xs) simp_all

subsection \<open>Fields an accessor does not read\<close>

lemma isMuted_frame [simp]:
  "isMuted (w\<lparr>inMuteOrUnmuteProgress := b\<rparr>) = isMuted w"
  "isMuted (w\<lparr>startMuted := b\<rparr>) = isMuted w"
  "isMuted (w\<lparr>dontFireRemoveEvent := b\<rparr>) = isMuted w"
  "isMuted (w\<lparr>log := l\<rparr>) = isMuted w"
  "isMuted (w\<lparr>inflight := fl\<rparr>) = isMuted w"
  by (simp_all add: isMuted_def isVideoTrack_def split: option.splits)

lemma inRoom_frame [simp]:
  "inRoom (w\<lparr>inMuteOrUnmuteProgress := b\<rparr>) = inRoom w"
  "inRoom (w\<lparr>startMuted := b\<rparr>) = inRoom w"
  "inRoom (w\<lparr>dontFireRemoveEvent := b\<rparr>) = inRoom w"
  "inRoom (w\<lparr>log := l\<rparr>) = inRoom w"
  "inRoom (w\<lparr>inflight := fl\<rparr>) = inRoom w"
  "inRoom (w\<lparr>stream := st\<rparr>) = inRoom w"
  "inRoom (w\<lparr>track := tr\<rparr>) = inRoom w"
  "inRoom (w\<lparr>videoType := vt\<rparr>) = inRoom w"
  by (simp_all add: inRoom_def)

lemma isAudioTrack_frame [simp]:
  "isAudioTrack (w\<lparr>inMuteOrUnmuteProgress := b\<rparr>) = isAudioTrack w"
  "isAudioTrack (w\<lparr>startMuted := b\<rparr>) = isAudioTrack w"
  "isAudioTrack (w\<lparr>dontFireRemoveEvent := b\<rparr>) = isAudioTrack w"
  "isAudioTrack (w\<lparr>log := l\<rparr>) = isAudioTrack w"
  "isAudioTrack (w\<lparr>inflight := fl\<rparr>) = isAudioTrack w"
  "isAudioTrack (w\<lparr>stream := st\<rparr>) = isAudioTrack w"
  "isAudioTrack (w\<lparr>track := tr\<rparr>) = isAudioTrack w"
  "isAudioTrack (w\<lparr>videoType := vt\<rparr>) = isAudioTrack w"
  by (simp_all add: isAudioTrack_def)

lemma localDisablement_frame [simp]:
  "localDisablement (w\<lparr>inMuteOrUnmuteProgress := b\<rparr>) = localDisablement w"
  "localDisablement (w\<lparr>startMuted := b\<rparr>) = localDisablement w"
  "localDisablement (w\<lparr>dontFireRemoveEvent := b\<rparr>) = localDisablement w"
  "localDisablement (w\<lparr>log := l\<rparr>) = localDisablement w"
  "localDisablement (w\<lparr>inflight := fl\<rparr>) = localDisablement w"
  "localDisablement (w\<lparr>stream := st\<rparr>) = localDisablement w"
  "localDisablement (w\<lparr>track := tr\<rparr>) = localDisablement w"
  by (simp_all add: localDisablement_def isAudioTrack_def)

lemma getDeviceId_frame [simp]:
  "getDeviceId (w\<lparr>inMuteOrUnmuteProgress := b\<rparr>) = getDeviceId w"
  "getDeviceId (w\<lparr>startMuted := b\<rparr>) = getDeviceId w"
  "getDeviceId (w\<lparr>dontFireRemoveEvent := b\<rparr>) = getDeviceId w"
  by (simp_all add: getDeviceId_def split: option.splits)

lemma getCameraFacingMode_frame [simp]:
  "getCameraFacingMode (w\<lparr>inMuteOrUnmuteProgress := b\<rparr>) = getCameraFacingMode w"
  "getCameraFacingMode (w\<lparr>startMuted := b\<rparr>) = getCameraFacingMode w"
  "getCameraFacingMode (w\<lparr>dontFireRemoveEvent := b\<rparr>) = getCameraFacingMode w"
  by (simp_all add: getCameraFacingMode_def isVideoTrack_def split: option.splits)

subsection \<open>The guard and the waiting chains\<close>

lemma resume_guard:
  "case resume c m ph w of (r, w') \<Rightarrow>
     inflight w' = inflight w \<and>
     (case r of None \<Rightarrow> \<not> inMuteOrUnmuteProgress w'
              | Some ph' \<Rightarrow> inMuteOrUnmuteProgress w' = inMuteOrUnmuteProgress w)"
proof (cases ph)
  case ThenSendMuteStatus
  then show ?thesis by (cases c) (simp_all add: sendMuteStatus_def emit_def)
next
  case (ThenAttach infos)
  then show ?thesis
    by (cases c)
       (simp_all add: attachThen_def addStreamToConferenceAsUnmute_def emit_def Let_def
          split: option.split)
next
  case ThenStopStream
  then show ?thesis by (cases c) (simp_all add: stopStreamThen_def emit_def)
next
  case ThenEmit
  then show ?thesis by (cases c) (simp_all add: emitThen_def emit_def)
next
  case ThenClear
  then show ?thesis by (cases c) (simp_all add: clearThen_def emit_def)
next
  case (CatchClear e)
  then show ?thesis by (cases c) (simp_all add: clearCatch_def emit_def)
next
  case AwaitRemoveStream
  then show ?thesis by (cases c) simp_all
next
  case AwaitObtain
  then show ?thesis by (cases c) simp_all
next
  case AwaitAddStream
  then show ?thesis by (cases c) simp_all
next
  case AwaitSetMute
  then show ?thesis by (cases c) simp_all
qed

lemma createMuteUnmutePromise_serialised:
  "serialised w \<Longrightarrow> serialised (snd (createMuteUnmutePromise m w))"
  by (simp add: serialised_def createMuteUnmutePromise_def setMute_def Let_def emit_def
        removeStreamFromConferenceAsMute_def)

lemma resumeDispose_guard:
  "case resumeDispose c d w of (r, w') \<Rightarrow>
     inflight w' = inflight w \<and> inMuteOrUnmuteProgress w' = inMuteOrUnmuteProgress w"
  by (cases d; cases c) (simp_all add: emit_def)

lemma dispose_guard:
  "inflight (dispose w) = inflight w \<and>
   inMuteOrUnmuteProgress (dispose w) = inMuteOrUnmuteProgress w"
  by (simp add: dispose_def detach_def emit_def Let_def split: option.split)

lemma onDeviceListChanged_guard:
  "case onDeviceListChanged devs w of
     Inl e \<Rightarrow> True
   | Inr w' \<Rightarrow> inflight w' = inflight w \<and> inMuteOrUnmuteProgress w' = inMuteOrUnmuteProgress w"
  by (simp add: onDeviceListChanged_def setRealDeviceIdFromDeviceList_def split: option.split)

lemma complete_serialised:
  assumes "serialised w"
  shows "serialised (step (Complete i c) w)"
proof (cases "i < length (inflight w)")
  case False
  with assms show ?thesis by simp
next
  case True
  with assms have i: "i = 0" and one: "length (inflight w) = 1"
    by (auto simp: serialised_def)
  obtain r w' where r: "resume c (target (inflight w ! 0)) (phase (inflight w ! 0)) w = (r, w')"
    by (cases "resume c (target (inflight w ! 0)) (phase (inflight w ! 0)) w")
  from resume_guard [where c = c and m = "target (inflight w ! 0)"
      and ph = "phase (inflight w ! 0)" and w = w] r
  have fl: "inflight w' = inflight w"
    and g: "case r of None \<Rightarrow> \<not> inMuteOrUnmuteProgress w'
              | Some ph' \<Rightarrow> inMuteOrUnmuteProgress w' = inMuteOrUnmuteProgress w"
    by simp_all
  from one obtain x where x: "inflight w = [x]"
    by (cases "inflight w") auto
  show ?thesis
    using assms i r fl g x by (cases r) (simp_all add: serialised_def)
qed

lemma step_serialised:
  assumes "serialised w"
  shows "serialised (step i w)"
proof (cases i)
  case (Complete n c)
  with assms show ?thesis by (simp only: complete_serialised)
next
  case (CompleteDispose n c)
  with assms resumeDispose_guard [where c = c and d = "disposals w ! n" and w = w]
  show ?thesis
    by (simp add: serialised_def split: prod.splits option.splits)
next
  case (DeviceListChanged devs)
  with assms onDeviceListChanged_guard [where devs = devs and w = w] show ?thesis
    by (simp add: serialised_def split: sum.splits)
next
  case Mute
  with assms show ?thesis by (simp add: mute_def createMuteUnmutePromise_serialised)
next
  case Unmute
  with assms show ?thesis by (simp add: unmute_def createMuteUnmutePromise_serialised)
next
  case Dispose
  with assms dispose_guard [of w] show ?thesis by (simp add: serialised_def)
next
  case (SetConference c)
  with assms show ?thesis by (simp add: serialised_def setConference_def)
next
  case (Attach c)
  with assms show ?thesis by (simp add: serialised_def)
next
  case NativeTrackEnded
  with assms show ?thesis by (simp add: serialised_def)
next
  case NativeStreamInactive
  with assms show ?thesis by (simp add: serialised_def)
qed

lemma run_serialised: "serialised w \<Longrightarrow> serialised (run ins w)"
  by (induction ins arbitrary: w) (simp_all add: step_serialised del: step.simps)

lemma new_serialised:
  "serialised (JitsiLocalTrack_new strm trk mtype vtype res devId facing proto firefox oc)"
  by (simp add: serialised_def JitsiLocalTrack_new_def)

subsection \<open>A mute by local disablement\<close>

lemma resume_disablement:
  assumes "disablementPhase ph"
  shows "case resume c True ph w of (r, w') \<Rightarrow>
           stream w' = stream w \<and> track w' = track w \<and> inflight w' = inflight w
         \<and> (\<exists>suf. log w' = log w @ suf \<and> set suf \<subseteq> disablementEvents)
         \<and> (case r of None \<Rightarrow> True | Some ph' \<Rightarrow> disablementPhase ph')"
proof (cases ph)
  case ThenSendMuteStatus
  then show ?thesis
    by (cases c) (simp_all add: sendMuteStatus_def emit_def disablementEvents_def)
next
  case AwaitSetMute
  then show ?thesis by (cases c) simp_all
next
  case ThenEmit
  then show ?thesis by (cases c) (simp_all add: emitThen_def emit_def disablementEvents_def)
next
  case ThenClear
  then show ?thesis by (cases c) (simp_all add: clearThen_def emit_def disablementEvents_def)
qed (use assms in simp_all)

lemma disabling_complete:
  assumes "disabling w0 w"
  shows "disabling w0 (step (Complete i c) w)"
proof (cases "i < length (inflight w)")
  case False
  with assms show ?thesis by simp
next
  case True
  define tr where "tr = inflight w ! i"
  from True assms have t: "target tr" and p: "disablementPhase (phase tr)"
    by (simp_all add: disabling_def tr_def)
  obtain r w' where r: "resume c True (phase tr) w = (r, w')"
    by (cases "resume c True (phase tr) w")
  from resume_disablement [OF p, where c = c and w = w] r
  have s: "stream w' = stream w" and k: "track w' = track w" and f: "inflight w' = inflight w"
    and l: "\<exists>suf. log w' = log w @ suf \<and> set suf \<subseteq> disablementEvents"
    and n: "case r of None \<Rightarrow> True | Some ph' \<Rightarrow> disablementPhase ph'"
    by simp_all
  from l assms have l': "\<exists>suf. log w' = log w0 @ suf \<and> set suf \<subseteq> disablementEvents"
    by (auto simp: disabling_def)
  show ?thesis
  proof (cases r)
    case None
    have "set (take i (inflight w) @ drop (Suc i) (inflight w)) \<subseteq> set (inflight w)"
      by (auto dest: in_set_takeD in_set_dropD)
    with None True r t s k f l' assms show ?thesis
      by (auto simp: disabling_def tr_def)
  next
    case (Some ph')
    have "set ((inflight w)[i := Transition True ph'])
            \<subseteq> insert (Transition True ph') (set (inflight w))"
      by (rule set_update_subset_insert)
    with Some True r t s k f l' n assms show ?thesis
      by (auto simp: disabling_def tr_def)
  qed
qed

lemma disabling_completions:
  "disabling w0 w \<Longrightarrow> disabling w0 (run (completions cs) w)"
  by (induction cs arbitrary: w)
     (auto simp: completions_def disabling_complete simp del: step.simps)

lemma disabling_mute:
  assumes "\<not> inMuteOrUnmuteProgress w" and "inflight w = []" and "localDisablement w"
  shows "disabling (w\<lparr>track := (if isMuted w then track w
                                 else map_option (\<lambda>tr. tr\<lparr>enabled := False\<rparr>) (track w))\<rparr>)
           (step Mute w)"
  using assms
  by (simp add: disabling_def mute_def createMuteUnmutePromise_def setMute_def Let_def)

subsection \<open>The order of the notifications of one transition\<close>

lemma notified_no_fulfilled [simp]: "Fulfilled \<notin> set (notified m w)"
  by (simp add: notified_def)


lemma filter_notable_attach [simp]:
  "filter notable (map (\<lambda>c. AttachMediaStream c s) cs) = []"
  by (induction cs) simp_all





subsection \<open>The ended flag and the native track\<close>

lemma resume_ended:
  "case resume c m ph w of (r, w') \<Rightarrow>
     trackEnded w' = trackEnded w \<and> (track w \<noteq> None \<longrightarrow> track w' \<noteq> None)"
proof (cases ph)
  case ThenSendMuteStatus
  then show ?thesis by (cases c) (simp_all add: sendMuteStatus_def emit_def)
next
  case (ThenAttach infos)
  then show ?thesis
    by (cases c)
       (simp_all add: attachThen_def addStreamToConferenceAsUnmute_def emit_def Let_def
          split: option.split)
next
  case ThenStopStream
  then show ?thesis by (cases c) (simp_all add: stopStreamThen_def emit_def)
next
  case ThenEmit
  then show ?thesis by (cases c) (simp_all add: emitThen_def emit_def)
next
  case ThenClear
  then show ?thesis by (cases c) (simp_all add: clearThen_def emit_def)
next
  case (CatchClear e)
  then show ?thesis by (cases c) (simp_all add: clearCatch_def emit_def)
next
  case AwaitRemoveStream
  then show ?thesis by (cases c) simp_all
next
  case AwaitObtain
  then show ?thesis by (cases c) simp_all
next
  case AwaitAddStream
  then show ?thesis by (cases c) simp_all
next
  case AwaitSetMute
  then show ?thesis by (cases c) simp_all
qed

lemma resumeDispose_ended:
  "case resumeDispose c d w of (r, w') \<Rightarrow> trackEnded w' = trackEnded w \<and> track w' = track w"
  by (cases d; cases c) (simp_all add: emit_def)

lemma createMuteUnmutePromise_ended:
  "trackEnded (snd (createMuteUnmutePromise m w)) = trackEnded w
   \<and> (track w \<noteq> None \<longrightarrow> track (snd (createMuteUnmutePromise m w)) \<noteq> None)"
  by (simp add: createMuteUnmutePromise_def setMute_def Let_def emit_def
        removeStreamFromConferenceAsMute_def)

lemma dispose_ended:
  "trackEnded (dispose w) = trackEnded w \<and> track (dispose w) = track w"
  by (simp add: dispose_def detach_def emit_def Let_def split: option.split)

lemma onDeviceListChanged_ended:
  "case onDeviceListChanged devs w of
     Inl e \<Rightarrow> True
   | Inr w' \<Rightarrow> (trackEnded w \<longrightarrow> trackEnded w') \<and> track w' = track w"
  by (simp add: onDeviceListChanged_def setRealDeviceIdFromDeviceList_def
        split: option.split)

lemma step_ended:
  "(trackEnded w \<longrightarrow> trackEnded (step i w)) \<and> (track w \<noteq> None \<longrightarrow> track (step i w) \<noteq> None)"
proof (cases i)
  case Mute
  with createMuteUnmutePromise_ended [where m = True and w = w] show ?thesis
    by (simp add: mute_def)
next
  case Unmute
  with createMuteUnmutePromise_ended [where m = False and w = w] show ?thesis
    by (simp add: unmute_def)
next
  case Dispose
  with dispose_ended [of w] show ?thesis by simp
next
  case (SetConference c)
  then show ?thesis by (simp add: setConference_def)
next
  case (DeviceListChanged devs)
  with onDeviceListChanged_ended [where devs = devs and w = w] show ?thesis
    by (simp split: sum.splits)
next
  case (Complete n c)
  with resume_ended [where c = c and m = "target (inflight w ! n)"
          and ph = "phase (inflight w ! n)" and w = w] show ?thesis
    by (simp split: prod.splits option.splits)
next
  case (CompleteDispose n c)
  with resumeDispose_ended [where c = c and d = "disposals w ! n" and w = w] show ?thesis
    by (simp split: prod.splits option.splits)
next
  case (Attach c)
  then show ?thesis by simp
next
  case NativeTrackEnded
  then show ?thesis by simp
next
  case NativeStreamInactive
  then show ?thesis by simp
qed

lemma run_ended:
  "(trackEnded w \<longrightarrow> trackEnded (run ins w)) \<and> (track w \<noteq> None \<longrightarrow> track (run ins w) \<noteq> None)"
proof (induction ins arbitrary: w)
  case Nil
  show ?case by simp
next
  case (Cons i ins)
  from step_ended [where w = w and i = i] Cons [of "step i w"] show ?case
    by (simp del: step.simps)
qed

subsection \<open>A disposal whose removal is pending\<close>

lemma pending_removal_step:
  assumes "c \<noteq> Resolve"
    and "disposals v = ds @ [AwaitRemoveTrack] \<or> length (disposals v) \<le> length ds"
    and "length (log w) \<le> length (log v)"
    and "SuperDispose \<notin> set (eventsSince w v)"
  shows "(disposals (step (CompleteDispose (length ds) c) v) = ds @ [AwaitRemoveTrack]
          \<or> length (disposals (step (CompleteDispose (length ds) c) v)) \<le> length ds)
       \<and> length (log w) \<le> length (log (step (CompleteDispose (length ds) c) v))
       \<and> SuperDispose \<notin> set (eventsSince w (step (CompleteDispose (length ds) c) v))"
proof (cases "disposals v = ds @ [AwaitRemoveTrack]")
  case True
  with assms(1,3,4) show ?thesis
    by (cases c) (simp_all add: emit_def eventsSince_def)
next
  case False
  with assms(2) have "length (disposals v) \<le> length ds" by simp
  with assms(3,4) show ?thesis by simp
qed

lemma pending_removal_run:
  assumes "Resolve \<notin> set cs"
    and "disposals v = ds @ [AwaitRemoveTrack] \<or> length (disposals v) \<le> length ds"
    and "length (log w) \<le> length (log v)"
    and "SuperDispose \<notin> set (eventsSince w v)"
  shows "SuperDispose \<notin> set (eventsSince w (run (map (CompleteDispose (length ds)) cs) v))"
  using assms
proof (induction cs arbitrary: v)
  case Nil
  then show ?case by simp
next
  case (Cons c cs)
  from Cons.prems(1) have c: "c \<noteq> Resolve" and cs: "Resolve \<notin> set cs" by auto
  from pending_removal_step [OF c Cons.prems(2) Cons.prems(3) Cons.prems(4)]
  have "SuperDispose \<notin> set (eventsSince w
          (run (map (CompleteDispose (length ds)) cs) (step (CompleteDispose (length ds) c) v)))"
    by (intro Cons.IH [OF cs]) simp_all
  then show ?case by (simp del: step.simps)
qed

section \<open>The derived mute state\<close>

text \<open>
  C7. Whenever \<open>nativeStream\<close> is null, \<open>isMuted()\<close> returns true, whatever the native
  track is and whatever its enabled flag says.
\<close>

theorem isMuted_without_stream:
  "stream t = None \<Longrightarrow> isMuted (t\<lparr>track := trk\<rparr>)"
  by (simp add: isMuted_def)

theorem isMuted_without_stream_witness:
  "stream (cameraRuntime\<lparr>stream := None\<rparr>) = None
   \<and> isMuted (cameraRuntime\<lparr>stream := None, track := Some (cameraTrack\<lparr>enabled := True\<rparr>)\<rparr>)"
  using isMuted_without_stream [of "cameraRuntime\<lparr>stream := None\<rparr>"
          "Some (cameraTrack\<lparr>enabled := True\<rparr>)"]
  by simp

text \<open>
  C10. A video track whose native stream exists but is not active is reported muted even
  when its native track exists and is enabled; the enabled flag decides only when the
  stream is active or the track is an audio track.
\<close>

theorem isMuted_inactive_video:
  assumes "stream t = Some s"
  shows "(isVideoTrack t \<and> \<not> isActive s \<longrightarrow>
            isMuted (t\<lparr>track := Some (tr\<lparr>enabled := True\<rparr>)\<rparr>))
       \<and> (isAudioTrack t \<or> isActive s \<longrightarrow>
            isMuted t = (case track t of None \<Rightarrow> True | Some tr' \<Rightarrow> \<not> enabled tr'))"
  using assms
  by (cases "mediaType t") (simp_all add: isMuted_def isVideoTrack_def isAudioTrack_def)

theorem isMuted_inactive_video_witness:
  "stream (cameraRuntime\<lparr>stream := Some (cameraStream\<lparr>active := False\<rparr>)\<rparr>)
     = Some (cameraStream\<lparr>active := False\<rparr>)
   \<and> isVideoTrack (cameraRuntime\<lparr>stream := Some (cameraStream\<lparr>active := False\<rparr>)\<rparr>)
   \<and> \<not> isActive (cameraStream\<lparr>active := False\<rparr>)
   \<and> isMuted (cameraRuntime\<lparr>stream := Some (cameraStream\<lparr>active := False\<rparr>),
                              track := Some (cameraTrack\<lparr>enabled := True\<rparr>)\<rparr>)"
  using isMuted_inactive_video
          [of "cameraRuntime\<lparr>stream := Some (cameraStream\<lparr>active := False\<rparr>)\<rparr>"
              "cameraStream\<lparr>active := False\<rparr>" cameraTrack]
  by (simp add: cameraRuntime_def JitsiLocalTrack_new_def isVideoTrack_def isActive_def)

section \<open>Device identity resolution\<close>

text \<open>
  C8. On a device-list-changed notification, a list with no entry whose kind is the
  native track's kind followed by \<open>input\<close> and whose label equals the native track's label
  leaves \<open>resolvedDeviceId\<close> as it was, also when it already holds a concrete id; when
  entries match, the device id of the first of them is adopted. Both hold for the helper
  \<open>_setRealDeviceIdFromDeviceList\<close>, for the listener that runs on the notification, and
  for the notification delivered to a track whose listener is registered.
\<close>

theorem setRealDeviceId_resolution:
  assumes "track t = Some tr"
  shows "((\<forall>d\<in>set devs. \<not> deviceMatches tr d) \<longrightarrow>
            setRealDeviceIdFromDeviceList devs t = Inr t
          \<and> (\<exists>t'. onDeviceListChanged devs t = Inr t' \<and> realDeviceId t' = realDeviceId t)
          \<and> (\<forall>w. track w = Some tr \<and> listening w \<longrightarrow>
                realDeviceId (step (DeviceListChanged devs) w) = realDeviceId w))
       \<and> (\<forall>pre d post. devs = pre @ d # post \<and> deviceMatches tr d
              \<and> (\<forall>x\<in>set pre. \<not> deviceMatches tr x) \<longrightarrow>
            setRealDeviceIdFromDeviceList devs t
              = Inr (t\<lparr>realDeviceId := Some (dev_deviceId d)\<rparr>)
          \<and> (\<exists>t'. onDeviceListChanged devs t = Inr t'
                \<and> realDeviceId t' = Some (dev_deviceId d))
          \<and> (\<forall>w. track w = Some tr \<and> listening w \<longrightarrow>
                realDeviceId (step (DeviceListChanged devs) w) = Some (dev_deviceId d)))"
proof -
  have none: "find (deviceMatches tr) devs = None"
    if "\<forall>d\<in>set devs. \<not> deviceMatches tr d"
    using that by (rule find_no_match)
  have first: "find (deviceMatches tr) devs = Some d"
    if "devs = pre @ d # post" and "deviceMatches tr d" and "\<forall>x\<in>set pre. \<not> deviceMatches tr x"
    for pre d post
    using that by (simp add: find_first_match)
  have a1: "setRealDeviceIdFromDeviceList devs t = Inr t"
    if "find (deviceMatches tr) devs = None"
    using assms that by (simp add: setRealDeviceIdFromDeviceList_def)
  have a2: "\<exists>t'. onDeviceListChanged devs u = Inr t' \<and> realDeviceId t' = realDeviceId u"
    if "find (deviceMatches tr) devs = None" and "track u = Some tr"
    for u :: "'b JitsiLocalTrack_scheme"
    using that by (simp add: onDeviceListChanged_def setRealDeviceIdFromDeviceList_def)
  have b1: "setRealDeviceIdFromDeviceList devs t
              = Inr (t\<lparr>realDeviceId := Some (dev_deviceId d)\<rparr>)"
    if "find (deviceMatches tr) devs = Some d" for d
    using assms that by (simp add: setRealDeviceIdFromDeviceList_def)
  have b2: "\<exists>t'. onDeviceListChanged devs u = Inr t'
              \<and> realDeviceId t' = Some (dev_deviceId d)"
    if "find (deviceMatches tr) devs = Some d" and "track u = Some tr"
    for d and u :: "'b JitsiLocalTrack_scheme"
    using that by (simp add: onDeviceListChanged_def setRealDeviceIdFromDeviceList_def)
  have a3: "realDeviceId (step (DeviceListChanged devs) w) = realDeviceId w"
    if "find (deviceMatches tr) devs = None" and "track w = Some tr" and "listening w"
    for w
    using a2 [OF that(1,2)] that(3) by auto
  have b3: "realDeviceId (step (DeviceListChanged devs) w) = Some (dev_deviceId d)"
    if "find (deviceMatches tr) devs = Some d" and "track w = Some tr" and "listening w"
    for d w
    using b2 [OF that(1,2)] that(3) by auto
  have a: "(\<forall>d\<in>set devs. \<not> deviceMatches tr d) \<longrightarrow>
            setRealDeviceIdFromDeviceList devs t = Inr t
          \<and> (\<exists>t'. onDeviceListChanged devs t = Inr t' \<and> realDeviceId t' = realDeviceId t)
          \<and> (\<forall>w. track w = Some tr \<and> listening w \<longrightarrow>
                realDeviceId (step (DeviceListChanged devs) w) = realDeviceId w)"
    using none a1 a2 [OF _ assms] a3 by blast
  have b: "\<forall>pre d post. devs = pre @ d # post \<and> deviceMatches tr d
              \<and> (\<forall>x\<in>set pre. \<not> deviceMatches tr x) \<longrightarrow>
            setRealDeviceIdFromDeviceList devs t
              = Inr (t\<lparr>realDeviceId := Some (dev_deviceId d)\<rparr>)
          \<and> (\<exists>t'. onDeviceListChanged devs t = Inr t'
                \<and> realDeviceId t' = Some (dev_deviceId d))
          \<and> (\<forall>w. track w = Some tr \<and> listening w \<longrightarrow>
                realDeviceId (step (DeviceListChanged devs) w) = Some (dev_deviceId d))"
  proof (intro allI impI)
    fix pre d post
    assume h: "devs = pre @ d # post \<and> deviceMatches tr d
                 \<and> (\<forall>x\<in>set pre. \<not> deviceMatches tr x)"
    then have f: "find (deviceMatches tr) devs = Some d"
      using first by blast
    from b1 [OF f] b2 [OF f assms] b3 [OF f]
    show "setRealDeviceIdFromDeviceList devs t
              = Inr (t\<lparr>realDeviceId := Some (dev_deviceId d)\<rparr>)
          \<and> (\<exists>t'. onDeviceListChanged devs t = Inr t'
                \<and> realDeviceId t' = Some (dev_deviceId d))
          \<and> (\<forall>w. track w = Some tr \<and> listening w \<longrightarrow>
                realDeviceId (step (DeviceListChanged devs) w) = Some (dev_deviceId d))"
      by blast
  qed
  from a b show ?thesis by blast
qed

theorem setRealDeviceId_resolution_witness:
  "track cameraRuntime = Some cameraTrack
   \<and> listening cameraRuntime
   \<and> realDeviceId cameraRuntime = Some ''cam-1''
   \<and> dev_label (deviceList ! 0) = label cameraTrack
   \<and> dev_kind (deviceList ! 0) \<noteq> kind cameraTrack @ ''input''
   \<and> dev_kind (deviceList ! 1) = kind cameraTrack @ ''input''
   \<and> dev_label (deviceList ! 1) \<noteq> label cameraTrack
   \<and> setRealDeviceIdFromDeviceList (take 2 deviceList) cameraRuntime = Inr cameraRuntime
   \<and> realDeviceId (step (DeviceListChanged (take 2 deviceList)) cameraRuntime) = Some ''cam-1''
   \<and> deviceMatches cameraTrack (deviceList ! 2)
   \<and> setRealDeviceIdFromDeviceList deviceList cameraRuntime
       = Inr (cameraRuntime\<lparr>realDeviceId := Some ''cam-9''\<rparr>)
   \<and> realDeviceId (step (DeviceListChanged deviceList) cameraRuntime) = Some ''cam-9''"
proof -
  have t: "track cameraRuntime = Some cameraTrack"
    by (simp add: cameraRuntime_def JitsiLocalTrack_new_def)
  have l: "listening cameraRuntime"
    by (simp add: cameraRuntime_def JitsiLocalTrack_new_def)
  have r: "realDeviceId cameraRuntime = Some ''cam-1''"
    by (simp add: cameraRuntime_def JitsiLocalTrack_new_def)
  have k: "dev_label (deviceList ! 0) = label cameraTrack
           \<and> dev_kind (deviceList ! 0) \<noteq> kind cameraTrack @ ''input''
           \<and> dev_kind (deviceList ! 1) = kind cameraTrack @ ''input''
           \<and> dev_label (deviceList ! 1) \<noteq> label cameraTrack"
    by (simp add: deviceList_def cameraTrack_def)
  have n: "\<forall>d\<in>set (take 2 deviceList). \<not> deviceMatches cameraTrack d"
    by (simp add: deviceList_def deviceMatches_def cameraTrack_def)
  have m: "deviceMatches cameraTrack (deviceList ! 2)"
    by (simp add: deviceList_def deviceMatches_def cameraTrack_def)
  have split: "deviceList = take 2 deviceList @ (deviceList ! 2) # drop 3 deviceList"
    by (simp add: deviceList_def)
  have i: "dev_deviceId (deviceList ! 2) = ''cam-9''"
    by (simp add: deviceList_def)
  from setRealDeviceId_resolution [OF t, of "take 2 deviceList"] n t l
  have a: "setRealDeviceIdFromDeviceList (take 2 deviceList) cameraRuntime = Inr cameraRuntime
           \<and> realDeviceId (step (DeviceListChanged (take 2 deviceList)) cameraRuntime)
               = realDeviceId cameraRuntime"
    by blast
  from setRealDeviceId_resolution [OF t, of deviceList] split m n t l
  have b: "setRealDeviceIdFromDeviceList deviceList cameraRuntime
             = Inr (cameraRuntime\<lparr>realDeviceId := Some (dev_deviceId (deviceList ! 2))\<rparr>)
           \<and> realDeviceId (step (DeviceListChanged deviceList) cameraRuntime)
               = Some (dev_deviceId (deviceList ! 2))"
    by blast
  from a b i t l r k m show ?thesis
    by (simp del: step.simps)
qed

section \<open>Serialisation of mute and unmute\<close>

text \<open>
  C1. In every state a track can reach from its construction, by any sequence of calls,
  notifications and completion signals, at most one mute/unmute transition is in flight,
  and the guard is set exactly while one is. A \<open>mute()\<close> or \<open>unmute()\<close> issued while a
  transition is in flight is rejected at once with \<open>TRACK_MUTE_UNMUTE_IN_PROGRESS\<close> and
  changes nothing, the transition in flight included. When the transition completes, the
  guard is cleared: on success the caller's promise is fulfilled, and on a failure
  reported by a collaborator it is rejected with that same fault.
\<close>

theorem mute_unmute_serialised:
  fixes ins strm trk mtype vtype res devId facing proto firefox oc
  defines "w \<equiv> run ins (JitsiLocalTrack_new strm trk mtype vtype res devId facing proto firefox oc)"
  shows "length (inflight w) \<le> 1
       \<and> (inMuteOrUnmuteProgress w \<longleftrightarrow> inflight w \<noteq> [])
       \<and> (inflight w \<noteq> [] \<longrightarrow>
            mute w = (Rejected (JitsiTrackError TRACK_MUTE_UNMUTE_IN_PROGRESS), w)
          \<and> unmute w = (Rejected (JitsiTrackError TRACK_MUTE_UNMUTE_IN_PROGRESS), w))
       \<and> (inflight w = [Transition m ThenClear] \<longrightarrow>
            step (Complete 0 Microtask) w
              = w\<lparr>inMuteOrUnmuteProgress := False, inflight := [], log := log w @ [Fulfilled]\<rparr>)
       \<and> (inflight w = [Transition m ph]
            \<and> ph \<in> {AwaitRemoveStream, AwaitObtain, AwaitAddStream} \<longrightarrow>
            run [Complete 0 (Reject e), Complete 0 Microtask] w
              = w\<lparr>inMuteOrUnmuteProgress := False, inflight := [],
                   log := log w @ [RejectedWith e]\<rparr>)"
proof -
  have s: "serialised w"
    unfolding w_def by (rule run_serialised [OF new_serialised])
  have a: "length (inflight w) \<le> 1" using s by (simp add: serialised_def)
  have g: "inMuteOrUnmuteProgress w \<longleftrightarrow> inflight w \<noteq> []" using s by (simp add: serialised_def)
  have b: "inflight w \<noteq> [] \<longrightarrow>
            mute w = (Rejected (JitsiTrackError TRACK_MUTE_UNMUTE_IN_PROGRESS), w)
          \<and> unmute w = (Rejected (JitsiTrackError TRACK_MUTE_UNMUTE_IN_PROGRESS), w)"
    using g by (simp add: mute_def unmute_def createMuteUnmutePromise_def)
  have c: "inflight w = [Transition m ThenClear] \<longrightarrow>
           step (Complete 0 Microtask) w
             = w\<lparr>inMuteOrUnmuteProgress := False, inflight := [], log := log w @ [Fulfilled]\<rparr>"
    by (simp add: clearThen_def emit_def)
  have d: "inflight w = [Transition m ph]
            \<and> ph \<in> {AwaitRemoveStream, AwaitObtain, AwaitAddStream} \<longrightarrow>
           run [Complete 0 (Reject e), Complete 0 Microtask] w
             = w\<lparr>inMuteOrUnmuteProgress := False, inflight := [],
                  log := log w @ [RejectedWith e]\<rparr>"
    by (auto simp: clearCatch_def emit_def)
  from a g b c d show ?thesis by blast
qed

lemma mutingCamera_inflight: "inflight mutingCamera = [Transition True AwaitRemoveStream]"
  by (simp add: mutingCamera_def sample_defs op_defs)

lemma remutingMic_inflight: "inflight remutingMic = [Transition True ThenClear]"
  by (simp add: remutingMic_def sample_defs op_defs)

theorem mute_unmute_serialised_witness:
  "inflight mutingCamera = [Transition True AwaitRemoveStream]
   \<and> inMuteOrUnmuteProgress mutingCamera
   \<and> unmute mutingCamera
       = (Rejected (JitsiTrackError TRACK_MUTE_UNMUTE_IN_PROGRESS), mutingCamera)
   \<and> run [Complete 0 (Reject (Collaborator 7)), Complete 0 Microtask] mutingCamera
       = mutingCamera\<lparr>inMuteOrUnmuteProgress := False, inflight := [],
                       log := log mutingCamera @ [RejectedWith (Collaborator 7)]\<rparr>
   \<and> inflight remutingMic = [Transition True ThenClear]
   \<and> step (Complete 0 Microtask) remutingMic
       = remutingMic\<lparr>inMuteOrUnmuteProgress := False, inflight := [],
                      log := log remutingMic @ [Fulfilled]\<rparr>"
proof -
  have c: "mutingCamera
             = run [SetConference (Some \<lparr> room = True \<rparr>), Mute]
                 (JitsiLocalTrack_new (Some cameraStream) (Some cameraTrack) VIDEO (Some CAMERA)
                    None ''cam-1'' None ''https:'' False False)"
    by (simp only: mutingCamera_def cameraRuntime_def)
  have m: "remutingMic
             = run [Mute, Complete 0 Microtask, Complete 0 Microtask, Complete 0 Microtask, Mute]
                 (JitsiLocalTrack_new (Some micStream) (Some micTrack) AUDIO None
                    None ''mic-1'' None ''https:'' False True)"
    by (simp only: remutingMic_def micRuntime_def)
  note t1 = mute_unmute_serialised
      [of "[SetConference (Some \<lparr> room = True \<rparr>), Mute]"
          "Some cameraStream" "Some cameraTrack" VIDEO "Some CAMERA" None "''cam-1''" None
          "''https:''" False False True AwaitRemoveStream "Collaborator 7", folded c]
  note t2 = mute_unmute_serialised
      [of "[Mute, Complete 0 Microtask, Complete 0 Microtask, Complete 0 Microtask, Mute]"
          "Some micStream" "Some micTrack" AUDIO None None "''mic-1''" None
          "''https:''" False True True ThenClear "Collaborator 7", folded m]
  from t1 t2 mutingCamera_inflight remutingMic_inflight show ?thesis
    by (simp del: run.simps step.simps)
qed

section \<open>Requests that change nothing\<close>

text \<open>
  C2, as the claim states it, fails on the code: \<open>createMuteUnmutePromise\<close> sets the
  guard before it calls \<open>_setMute\<close>, so a \<open>mute()\<close> on a muted track holds the guard
  until the microtask of its \<open>then\<close> callback, and a second call made in between is
  rejected. The microphone below was muted by a completed \<open>mute()\<close>.
\<close>

theorem noop_acquires_guard_counterexample:
  "isMuted mutedMic \<and> \<not> inMuteOrUnmuteProgress mutedMic
   \<and> inMuteOrUnmuteProgress (snd (mute mutedMic))
   \<and> fst (mute (snd (mute mutedMic))) = Rejected (JitsiTrackError TRACK_MUTE_UNMUTE_IN_PROGRESS)"
  by (simp add: mutedMic_def sample_defs op_defs)

text \<open>
  C2, amended. A \<open>mute()\<close> on a muted track, or an \<open>unmute()\<close> on an unmuted one, issued
  while no transition is in flight, is accepted and takes the guard; it changes nothing
  else, calls no collaborator and emits no event; a call made before its completion is
  rejected with \<open>TRACK_MUTE_UNMUTE_IN_PROGRESS\<close>; and its completion releases the guard and
  fulfils the caller's promise, leaving the track exactly as it was before the call.
\<close>

theorem noop_mute_unmute:
  assumes "\<not> inMuteOrUnmuteProgress w" and "inflight w = []" and "isMuted w = m"
  shows "createMuteUnmutePromise m w
           = (Pending, w\<lparr>inMuteOrUnmuteProgress := True, inflight := [Transition m ThenClear]\<rparr>)
       \<and> fst (createMuteUnmutePromise m' (snd (createMuteUnmutePromise m w)))
           = Rejected (JitsiTrackError TRACK_MUTE_UNMUTE_IN_PROGRESS)
       \<and> step (Complete 0 Microtask) (snd (createMuteUnmutePromise m w))
           = w\<lparr>log := log w @ [Fulfilled]\<rparr>"
proof -
  have a: "createMuteUnmutePromise m w
           = (Pending, w\<lparr>inMuteOrUnmuteProgress := True, inflight := [Transition m ThenClear]\<rparr>)"
    using assms by (simp add: createMuteUnmutePromise_def setMute_def)
  have b: "w\<lparr>inMuteOrUnmuteProgress := False, inflight := []\<rparr> = w"
    using assms(1,2) by (cases w) simp
  have c: "step (Complete 0 Microtask)
             (w\<lparr>inMuteOrUnmuteProgress := True, inflight := [Transition m ThenClear]\<rparr>)
           = w\<lparr>inMuteOrUnmuteProgress := False, inflight := []\<rparr>\<lparr>log := log w @ [Fulfilled]\<rparr>"
    by (simp add: clearThen_def emit_def)
  show ?thesis
    unfolding a using c b by (simp add: createMuteUnmutePromise_def)
qed

lemma mutedMic_idle:
  "\<not> inMuteOrUnmuteProgress mutedMic \<and> inflight mutedMic = [] \<and> isMuted mutedMic = True"
  by (simp add: mutedMic_def sample_defs op_defs)

theorem noop_mute_unmute_witness:
  "\<not> inMuteOrUnmuteProgress mutedMic \<and> inflight mutedMic = [] \<and> isMuted mutedMic = True
   \<and> createMuteUnmutePromise True mutedMic
       = (Pending, mutedMic\<lparr>inMuteOrUnmuteProgress := True,
                            inflight := [Transition True ThenClear]\<rparr>)
   \<and> fst (createMuteUnmutePromise False (snd (createMuteUnmutePromise True mutedMic)))
       = Rejected (JitsiTrackError TRACK_MUTE_UNMUTE_IN_PROGRESS)
   \<and> step (Complete 0 Microtask) (snd (createMuteUnmutePromise True mutedMic))
       = mutedMic\<lparr>log := log mutedMic @ [Fulfilled]\<rparr>"
  using mutedMic_idle noop_mute_unmute [of mutedMic True False]
  by blast

section \<open>Disposal\<close>

text \<open>
  C3, as the claim states it, fails on the code: \<open>dispose\<close> keeps the promise of
  \<open>conference.removeTrack\<close> and goes on at once. When it returns, the stream of the bound
  camera has been stopped and detached while the removal is still pending.
\<close>

theorem dispose_before_removal_counterexample:
  "conference boundCamera = Some \<lparr> room = True \<rparr> \<and> stream boundCamera = Some cameraStream
   \<and> log (dispose boundCamera)
       = log boundCamera @ [ConferenceRemoveTrack, StopMediaStream (Some cameraStream), Detach,
                            RemoveListener DEVICE_LIST_CHANGED]
   \<and> disposals (dispose boundCamera) = [AwaitRemoveTrack]"
  by (simp add: boundCamera_def sample_defs op_defs)

text \<open>
  C3, amended. On \<open>dispose()\<close> of a track that has a conference, the removal from the
  conference is requested first; then, in the same call and without waiting for the
  removal to complete, the native stream, if there is one, is stopped and detached, and
  the listeners are removed. Only the teardown of the base class waits for the removal:
  as long as the removal has not completed, whatever other signals reach the pending
  disposal, the teardown is not run; it is not run when the removal completes either, but
  by the callback that follows.
\<close>

theorem dispose_order:
  assumes "conference w = Some c"
  shows "log (dispose w)
           = log w @ [ConferenceRemoveTrack]
               @ (case stream w of None \<Rightarrow> []
                  | Some s \<Rightarrow> [StopMediaStream (Some s), Detach])
               @ [RemoveListener DEVICE_LIST_CHANGED]
               @ (if onAudioOutputDeviceChanged w
                  then [RemoveListener AUDIO_OUTPUT_DEVICE_CHANGED] else [])
       \<and> disposals (dispose w) = disposals w @ [AwaitRemoveTrack]
       \<and> (Resolve \<notin> set cs \<longrightarrow>
            SuperDispose \<notin> set (eventsSince w
              (run (map (CompleteDispose (length (disposals w))) cs) (dispose w))))
       \<and> log (step (CompleteDispose (length (disposals w)) Resolve) (dispose w)) = log (dispose w)
       \<and> log (run [CompleteDispose (length (disposals w)) Resolve,
                   CompleteDispose (length (disposals w)) Microtask] (dispose w))
           = log (dispose w) @ [SuperDispose]"
proof -
  have d: "disposals (dispose w) = disposals w @ [AwaitRemoveTrack]"
    using assms by (simp add: dispose_def detach_def emit_def Let_def split: option.split)
  have l: "log (dispose w)
           = log w @ [ConferenceRemoveTrack]
               @ (case stream w of None \<Rightarrow> []
                  | Some s \<Rightarrow> [StopMediaStream (Some s), Detach])
               @ [RemoveListener DEVICE_LIST_CHANGED]
               @ (if onAudioOutputDeviceChanged w
                  then [RemoveListener AUDIO_OUTPUT_DEVICE_CHANGED] else [])"
    using assms by (simp add: dispose_def detach_def emit_def Let_def split: option.split)
  have len: "length (log w) \<le> length (log (dispose w))"
    unfolding l by simp
  have since: "SuperDispose \<notin> set (eventsSince w (dispose w))"
    unfolding eventsSince_def l by (simp split: option.split)
  have p: "Resolve \<notin> set cs \<longrightarrow>
            SuperDispose \<notin> set (eventsSince w
              (run (map (CompleteDispose (length (disposals w))) cs) (dispose w)))"
    using pending_removal_run [where ds = "disposals w" and v = "dispose w" and w = w and cs = cs]
      d len since
    by blast
  have r: "log (step (CompleteDispose (length (disposals w)) Resolve) (dispose w)) = log (dispose w)
       \<and> log (run [CompleteDispose (length (disposals w)) Resolve,
                   CompleteDispose (length (disposals w)) Microtask] (dispose w))
           = log (dispose w) @ [SuperDispose]"
    using d by (simp add: emit_def)
  from l d p r show ?thesis by blast
qed

lemma boundCamera_bound:
  "conference boundCamera = Some \<lparr> room = True \<rparr> \<and> stream boundCamera = Some cameraStream
   \<and> disposals boundCamera = [] \<and> \<not> onAudioOutputDeviceChanged boundCamera"
  by (simp add: boundCamera_def sample_defs op_defs)

lemma tornDownCamera_bound:
  "conference (step (SetConference (Some \<lparr> room = True \<rparr>)) tornDownCamera)
     = Some \<lparr> room = True \<rparr>
   \<and> stream (step (SetConference (Some \<lparr> room = True \<rparr>)) tornDownCamera) = None
   \<and> disposals (step (SetConference (Some \<lparr> room = True \<rparr>)) tornDownCamera) = []
   \<and> \<not> onAudioOutputDeviceChanged (step (SetConference (Some \<lparr> room = True \<rparr>)) tornDownCamera)"
  by (simp add: tornDownCamera_def sample_defs op_defs)

theorem dispose_order_witness:
  "conference boundCamera = Some \<lparr> room = True \<rparr> \<and> stream boundCamera = Some cameraStream
   \<and> log (dispose boundCamera)
       = log boundCamera @ [ConferenceRemoveTrack, StopMediaStream (Some cameraStream), Detach,
                            RemoveListener DEVICE_LIST_CHANGED]
   \<and> disposals (dispose boundCamera) = [AwaitRemoveTrack]
   \<and> SuperDispose \<notin> set (eventsSince boundCamera
        (run (map (CompleteDispose 0) [Microtask, Streams [], Microtask, Reject (Collaborator 3),
                                       Microtask])
           (dispose boundCamera)))
   \<and> log (step (CompleteDispose 0 Resolve) (dispose boundCamera)) = log (dispose boundCamera)
   \<and> log (run [CompleteDispose 0 Resolve, CompleteDispose 0 Microtask] (dispose boundCamera))
       = log (dispose boundCamera) @ [SuperDispose]
   \<and> log (dispose (step (SetConference (Some \<lparr> room = True \<rparr>)) tornDownCamera))
       = log (step (SetConference (Some \<lparr> room = True \<rparr>)) tornDownCamera)
         @ [ConferenceRemoveTrack, RemoveListener DEVICE_LIST_CHANGED]"
proof -
  have c: "Resolve \<notin> set [Microtask, Streams [], Microtask, Reject (Collaborator 3), Microtask]"
    by simp
  from boundCamera_bound c
    dispose_order [of boundCamera "\<lparr> room = True \<rparr>"
      "[Microtask, Streams [], Microtask, Reject (Collaborator 3), Microtask]"]
  have a: "log (dispose boundCamera)
       = log boundCamera @ [ConferenceRemoveTrack, StopMediaStream (Some cameraStream), Detach,
                            RemoveListener DEVICE_LIST_CHANGED]
   \<and> disposals (dispose boundCamera) = [AwaitRemoveTrack]
   \<and> SuperDispose \<notin> set (eventsSince boundCamera
        (run (map (CompleteDispose 0) [Microtask, Streams [], Microtask, Reject (Collaborator 3),
                                       Microtask])
           (dispose boundCamera)))
   \<and> log (step (CompleteDispose 0 Resolve) (dispose boundCamera)) = log (dispose boundCamera)
   \<and> log (run [CompleteDispose 0 Resolve, CompleteDispose 0 Microtask] (dispose boundCamera))
       = log (dispose boundCamera) @ [SuperDispose]"
    by (simp del: run.simps step.simps)
  from tornDownCamera_bound
    dispose_order [of "step (SetConference (Some \<lparr> room = True \<rparr>)) tornDownCamera"
      "\<lparr> room = True \<rparr>" "[]"]
  have b: "log (dispose (step (SetConference (Some \<lparr> room = True \<rparr>)) tornDownCamera))
       = log (step (SetConference (Some \<lparr> room = True \<rparr>)) tornDownCamera)
         @ [ConferenceRemoveTrack, RemoveListener DEVICE_LIST_CHANGED]"
    by (simp del: run.simps step.simps)
  from boundCamera_bound a b show ?thesis by blast
qed

section \<open>Muting by local disablement\<close>

text \<open>
  C4. On an audio track, a desktop-share video track, a page that is not served over
  https, or Firefox, a \<open>mute()\<close> issued while no transition is in flight leaves the
  native stream as it is, whatever completion signals follow: it sets the enabled flag of
  the native track to false (and does nothing to it when the track is already muted), and
  the only events it logs are the mute status sent to the room, the mute-changed event
  and the fulfilment of the promise. The room's \<open>removeStream\<close> is never called and
  the stream is never stopped.
\<close>

theorem mute_by_disablement:
  assumes "\<not> inMuteOrUnmuteProgress w" and "inflight w = []" and "localDisablement w"
  shows "stream (run (Mute # completions cs) w) = stream w
       \<and> track (run (Mute # completions cs) w)
           = (if isMuted w then track w
              else map_option (\<lambda>tr. tr\<lparr>enabled := False\<rparr>) (track w))
       \<and> set (eventsSince w (run (Mute # completions cs) w)) \<subseteq> disablementEvents
       \<and> RoomRemoveStream s ty \<notin> set (eventsSince w (run (Mute # completions cs) w))
       \<and> StopMediaStream s \<notin> set (eventsSince w (run (Mute # completions cs) w))"
proof -
  let ?w0 = "w\<lparr>track := (if isMuted w then track w
                          else map_option (\<lambda>tr. tr\<lparr>enabled := False\<rparr>) (track w))\<rparr>"
  have "disabling ?w0 (run (completions cs) (step Mute w))"
    by (rule disabling_completions [OF disabling_mute [OF assms]])
  then have d: "disabling ?w0 (run (Mute # completions cs) w)" by simp
  then obtain suf where suf: "log (run (Mute # completions cs) w) = log w @ suf"
      and sub: "set suf \<subseteq> disablementEvents"
    by (auto simp: disabling_def)
  have e: "eventsSince w (run (Mute # completions cs) w) = suf"
    unfolding eventsSince_def suf by simp
  from d have "stream (run (Mute # completions cs) w) = stream w"
    and "track (run (Mute # completions cs) w)
           = (if isMuted w then track w
              else map_option (\<lambda>tr. tr\<lparr>enabled := False\<rparr>) (track w))"
    by (simp_all add: disabling_def)
  moreover from sub have "RoomRemoveStream s ty \<notin> set suf" and "StopMediaStream s \<notin> set suf"
    by (auto simp: disablementEvents_def)
  ultimately show ?thesis using sub unfolding e by simp
qed

lemma boundMic_idle:
  "\<not> inMuteOrUnmuteProgress boundMic \<and> inflight boundMic = [] \<and> localDisablement boundMic
   \<and> \<not> isMuted boundMic \<and> track boundMic = Some micTrack \<and> stream boundMic = Some micStream"
  by (simp add: boundMic_def sample_defs op_defs)

theorem mute_by_disablement_witness:
  "\<not> inMuteOrUnmuteProgress boundMic \<and> inflight boundMic = [] \<and> localDisablement boundMic
   \<and> stream (run (Mute # completions [(0, Microtask), (0, Resolve), (0, Microtask), (0, Microtask)])
               boundMic) = Some micStream
   \<and> track (run (Mute # completions [(0, Microtask), (0, Resolve), (0, Microtask), (0, Microtask)])
              boundMic) = Some (micTrack\<lparr>enabled := False\<rparr>)
   \<and> RoomRemoveStream (Some micStream) ''mute''
       \<notin> set (eventsSince boundMic
                (run (Mute # completions [(0, Microtask), (0, Resolve), (0, Microtask), (0, Microtask)])
                   boundMic))
   \<and> StopMediaStream (Some micStream)
       \<notin> set (eventsSince boundMic
                (run (Mute # completions [(0, Microtask), (0, Resolve), (0, Microtask), (0, Microtask)])
                   boundMic))"
  using boundMic_idle
    mute_by_disablement [of boundMic
      "[(0, Microtask), (0, Resolve), (0, Microtask), (0, Microtask)]"
      "Some micStream" "''mute''"]
  by (simp del: run.simps step.simps)

section \<open>Notification order of a transition\<close>




section \<open>Re-acquisition without a matching stream\<close>

text \<open>
  C6, as the claim states it, fails on the code: an \<open>unmute()\<close> takes the re-acquisition
  path whenever the track counts as muted, which a camera track also does while its
  stream exists but is inactive. When re-acquisition then yields no video entry, the
  transition fails with \<open>TRACK_NO_STREAM_FOUND\<close> and the track still holds that stream.
\<close>

theorem no_stream_found_keeps_stream_counterexample:
  "\<not> localDisablement (step NativeStreamInactive cameraRuntime)
   \<and> isMuted (step NativeStreamInactive cameraRuntime)
   \<and> last (log (run [Unmute, Complete 0 (Streams [micInfo]), Complete 0 Microtask,
                      Complete 0 Microtask] (step NativeStreamInactive cameraRuntime)))
       = RejectedWith (JitsiTrackError TRACK_NO_STREAM_FOUND)
   \<and> stream (run [Unmute, Complete 0 (Streams [micInfo]), Complete 0 Microtask,
                   Complete 0 Microtask] (step NativeStreamInactive cameraRuntime))
       = Some (cameraStream\<lparr>active := False\<rparr>)"
  by (simp add: sample_defs op_defs)

text \<open>
  C6, amended. An \<open>unmute()\<close> of a muted track under the stream-teardown policy, issued
  while no transition is in flight, requests a new stream; if the set it gets has no
  entry of the track's media kind, the caller's promise is rejected with
  \<open>TRACK_NO_STREAM_FOUND\<close>, the guard is cleared, and the native stream and track are
  left as they were before the call: the stream remains null when it was null.
\<close>

theorem unmute_no_stream_found:
  assumes "\<not> inMuteOrUnmuteProgress w" and "inflight w = []"
    and "\<not> localDisablement w" and "isMuted w"
    and "\<forall>info\<in>set infos. info_mediaType info \<noteq> mediaType w"
  shows "let w' = run [Unmute, Complete 0 (Streams infos), Complete 0 Microtask,
                       Complete 0 Microtask] w
         in log w' = log w @ [ObtainAudioAndVideoPermissions
                                \<lparr> cameraDeviceId = getDeviceId w, devices = [VIDEO],
                                  opt_facingMode = getCameraFacingMode w,
                                  opt_resolution = resolution w \<rparr>,
                              RejectedWith (JitsiTrackError TRACK_NO_STREAM_FOUND)]
          \<and> stream w' = stream w \<and> track w' = track w
          \<and> (stream w = None \<longrightarrow> stream w' = None)
          \<and> \<not> inMuteOrUnmuteProgress w' \<and> inflight w' = []"
proof -
  have f: "find (\<lambda>info. info_mediaType info = mediaType w) infos = None"
    using assms(5) by (simp add: find_no_match)
  show ?thesis
    using assms(1-4) f
    by (simp add: unmute_def createMuteUnmutePromise_def setMute_def attachThen_def
          clearCatch_def emit_def Let_def)
qed

lemma tornDownCamera_idle:
  "\<not> inMuteOrUnmuteProgress tornDownCamera \<and> inflight tornDownCamera = []
   \<and> \<not> localDisablement tornDownCamera \<and> isMuted tornDownCamera
   \<and> stream tornDownCamera = None \<and> mediaType tornDownCamera = VIDEO"
  by (simp add: tornDownCamera_def sample_defs op_defs)

theorem unmute_no_stream_found_witness:
  "\<not> inMuteOrUnmuteProgress tornDownCamera \<and> inflight tornDownCamera = []
   \<and> \<not> localDisablement tornDownCamera \<and> isMuted tornDownCamera
   \<and> info_mediaType micInfo \<noteq> mediaType tornDownCamera
   \<and> stream tornDownCamera = None
   \<and> stream (run [Unmute, Complete 0 (Streams [micInfo]), Complete 0 Microtask,
                   Complete 0 Microtask] tornDownCamera) = None
   \<and> \<not> inMuteOrUnmuteProgress
         (run [Unmute, Complete 0 (Streams [micInfo]), Complete 0 Microtask,
               Complete 0 Microtask] tornDownCamera)"
proof -
  have m: "\<forall>info\<in>set [micInfo]. info_mediaType info \<noteq> mediaType tornDownCamera"
    using tornDownCamera_idle by (simp add: micInfo_def)
  have k: "info_mediaType micInfo \<noteq> mediaType tornDownCamera"
    using m by simp
  from tornDownCamera_idle m k unmute_no_stream_found [of tornDownCamera "[micInfo]"]
  show ?thesis
    by (simp add: Let_def del: run.simps step.simps)
qed

section \<open>The ended state\<close>

text \<open>
  C9, as the claim states it, fails on the code: \<open>isEnded()\<close> is also true while the
  native track reports \<open>ended\<close>, and an unmute under the stream-teardown policy replaces
  the native track by a live one. The camera below was unplugged; the unmute that
  re-acquires a stream makes \<open>isEnded()\<close> false again.
\<close>

theorem isEnded_reverts_counterexample:
  "isEnded unpluggedCamera = Inr True
   \<and> isEnded (run [Unmute, Complete 0 (Streams [freshCameraInfo]), Complete 0 Microtask]
                unpluggedCamera) = Inr False"
  by (simp add: unpluggedCamera_def isEnded_def sample_defs op_defs)

text \<open>
  C9, amended. Once \<open>endedFlag\<close> is set it stays set after any sequence of operations,
  since the component never clears it, and from then on \<open>isEnded()\<close> returns true on every
  call.
\<close>

theorem endedFlag_permanent:
  assumes "trackEnded w"
  shows "trackEnded (run ins w) \<and> (track w \<noteq> None \<longrightarrow> isEnded (run ins w) = Inr True)"
  using assms run_ended [where w = w and ins = ins]
  by (auto simp: isEnded_def)

lemma endedMic_ended: "trackEnded endedMic \<and> track endedMic \<noteq> None"
  by (simp add: endedMic_def onDeviceListChanged_def setRealDeviceIdFromDeviceList_def
        sample_defs)

theorem endedFlag_permanent_witness:
  "trackEnded endedMic
   \<and> trackEnded (run [Mute, Complete 0 Microtask, DeviceListChanged deviceList, Unmute] endedMic)
   \<and> isEnded (run [Mute, Complete 0 Microtask, DeviceListChanged deviceList, Unmute] endedMic)
       = Inr True"
  using endedMic_ended
    endedFlag_permanent [of endedMic
      "[Mute, Complete 0 Microtask, DeviceListChanged deviceList, Unmute]"]
  by (simp del: run.simps step.simps)

end
